theory Spec2Isabelle
  imports Complex_Main
begin

section \<open>Diamonds pipeline: data model\<close>

text \<open>
  The script \<^verbatim>\<open>analysis.py\<close> keeps one data frame \<^verbatim>\<open>df\<close> and reassigns it
  stage by stage. A numeric column is a float64 column: a cell is a finite number, an
  infinity or NaN, and NaN is how a missing cell is stored. Finite values are kept as
  exact rationals, so the binary rounding error of floating point arithmetic is outside
  this development (as is the negative zero).
\<close>

datatype fval = Fin rat | PInf | NInf | NaN

text \<open>Comparison of two float cells: every comparison with NaN is false.\<close>

fun flt :: "fval \<Rightarrow> fval \<Rightarrow> bool" where
  "flt NaN y = False"
| "flt x NaN = False"
| "flt (Fin a) (Fin b) = (a < b)"
| "flt (Fin a) PInf = True"
| "flt (Fin a) NInf = False"
| "flt PInf y = False"
| "flt NInf NInf = False"
| "flt NInf y = True"

definition fgt :: "fval \<Rightarrow> fval \<Rightarrow> bool" where
  "fgt x y = flt y x"

text \<open>
  \<^verbatim>\<open>df["price"] / df["carat"]\<close>: the element-wise true division of two numeric
  columns. It raises nothing: a zero divisor gives an infinity, or NaN for \<open>0 / 0\<close>.
\<close>

fun fdiv :: "fval \<Rightarrow> fval \<Rightarrow> fval" where
  "fdiv NaN y = NaN"
| "fdiv x NaN = NaN"
| "fdiv (Fin a) (Fin b) =
     (if b = 0 then (if a = 0 then NaN else if 0 < a then PInf else NInf)
      else Fin (a / b))"
| "fdiv (Fin a) y = Fin 0"
| "fdiv PInf (Fin b) = (if b < 0 then NInf else PInf)"
| "fdiv NInf (Fin b) = (if b < 0 then PInf else NInf)"
| "fdiv x y = NaN"

text \<open>Rounding to the nearest integer, a tie going to the even neighbour.\<close>

definition rint :: "rat \<Rightarrow> int" where
  "rint q =
     (let f = \<lfloor>q\<rfloor>; d = q - of_int f
      in if d < 1 / 2 then f
         else if 1 / 2 < d then f + 1
         else if even f then f else f + 1)"

text \<open>\<^verbatim>\<open>.round(2)\<close> on a column: scale by 100, round to an integer, scale back.\<close>

fun round2 :: "fval \<Rightarrow> fval" where
  "round2 (Fin q) = Fin (of_int (rint (q * 100)) / 100)"
| "round2 x = x"

subsection \<open>Strings\<close>

text \<open>
  Strings are byte lists. Casing and white space are those of ASCII; a byte above 127 is
  neither cased nor white space here.
\<close>

definition isspace :: "char \<Rightarrow> bool" where
  "isspace c = (let n = (of_char c :: nat) in (9 \<le> n \<and> n \<le> 13) \<or> (28 \<le> n \<and> n \<le> 32))"

definition isupper :: "char \<Rightarrow> bool" where
  "isupper c = (let n = (of_char c :: nat) in 65 \<le> n \<and> n \<le> 90)"

definition islower :: "char \<Rightarrow> bool" where
  "islower c = (let n = (of_char c :: nat) in 97 \<le> n \<and> n \<le> 122)"

definition iscased :: "char \<Rightarrow> bool" where
  "iscased c = (isupper c \<or> islower c)"

definition to_upper :: "char \<Rightarrow> char" where
  "to_upper c = (if islower c then char_of ((of_char c :: nat) - 32) else c)"

definition to_lower :: "char \<Rightarrow> char" where
  "to_lower c = (if isupper c then char_of ((of_char c :: nat) + 32) else c)"

text \<open>\<^verbatim>\<open>str.strip()\<close>: drop the white space at both ends.\<close>

definition strip :: "string \<Rightarrow> string" where
  "strip s = rev (dropWhile isspace (rev (dropWhile isspace s)))"

text \<open>
  \<^verbatim>\<open>str.title()\<close>: a character that follows a cased character is lowered, any
  other character is raised.
\<close>

fun title_from :: "bool \<Rightarrow> string \<Rightarrow> string" where
  "title_from prev [] = []"
| "title_from prev (c # cs) =
     (if prev then to_lower c else to_upper c) # title_from (iscased c) cs"

definition title :: "string \<Rightarrow> string" where
  "title s = title_from False s"

subsection \<open>Rows and tables\<close>

text \<open>
  A cell of a column the script never names. A missing cell is \<open>Number NaN\<close>.
\<close>

datatype cell = Number fval | Text string

text \<open>
  The four columns the script reads by name, and the other columns of the input file
  in file order. \<open>cut\<close> and \<open>color\<close> are text columns, \<open>None\<close> being a missing cell.
\<close>

record row =
  carat :: fval
  cut :: "string option"
  color :: "string option"
  price :: fval
  extra :: "cell list"

text \<open>The row after the transformer has added its three columns.\<close>

record trow = row +
  price_per_carat :: fval
  value_category :: string
  price_band :: "string option"

section \<open>The cleaner (lines 44 to 61)\<close>

text \<open>
  \<^verbatim>\<open>df.drop_duplicates()\<close>: a row equal in every column to an earlier row is
  dropped, the first occurrence is kept, and the order is kept. Two missing cells count
  as equal.
\<close>

fun drop_from :: "'a list \<Rightarrow> 'a list \<Rightarrow> 'a list" where
  "drop_from seen [] = []"
| "drop_from seen (x # xs) =
     (if x \<in> set seen then drop_from seen xs else x # drop_from (x # seen) xs)"

definition drop_duplicates :: "'a list \<Rightarrow> 'a list" where
  "drop_duplicates t = drop_from [] t"

text \<open>\<^verbatim>\<open>df.dropna()\<close>: a row with a missing cell in any column is dropped.\<close>

definition isna_cell :: "cell \<Rightarrow> bool" where
  "isna_cell c = (c = Number NaN)"

definition isna_row :: "row \<Rightarrow> bool" where
  "isna_row r =
     (carat r = NaN \<or> cut r = None \<or> color r = None \<or> price r = NaN
      \<or> list_ex isna_cell (extra r))"

definition dropna :: "row list \<Rightarrow> row list" where
  "dropna t = filter (\<lambda>r. \<not> isna_row r) t"

text \<open>\<^verbatim>\<open>df["cut"].str.strip().str.title()\<close>, written back to the column.\<close>

definition normalize_cut :: "row \<Rightarrow> row" where
  "normalize_cut r = r\<lparr>cut := map_option (\<lambda>s. title (strip s)) (cut r)\<rparr>"

definition clean :: "row list \<Rightarrow> row list" where
  "clean t =
     (let df = drop_duplicates t;
          df = dropna df;
          df = filter (\<lambda>r. fgt (price r) (Fin 0)) df;
          df = filter (\<lambda>r. fgt (carat r) (Fin 0)) df;
          df = map normalize_cut df
      in df)"

section \<open>The transformer (lines 70 to 90)\<close>

definition categorise :: "fval \<Rightarrow> string" where
  "categorise ppc =
     (if flt ppc (Fin 2000) then ''Budget''
      else if flt ppc (Fin 5000) then ''Mid-Range''
      else ''Premium'')"

text \<open>
  \<^verbatim>\<open>pd.cut(x, bins, labels)\<close> with its defaults: a value in \<open>(lo, hi]\<close> of two
  neighbouring bin edges gets that interval's label, any other value gets none.
\<close>

fun cut_bins :: "rat list \<Rightarrow> string list \<Rightarrow> rat \<Rightarrow> string option" where
  "cut_bins (lo # hi # bs) (l # ls) x =
     (if lo < x \<and> x \<le> hi then Some l else cut_bins (hi # bs) ls x)"
| "cut_bins bs ls x = None"

definition pd_cut :: "rat list \<Rightarrow> string list \<Rightarrow> fval \<Rightarrow> string option" where
  "pd_cut bins labels x = (case x of Fin q \<Rightarrow> cut_bins bins labels q | _ \<Rightarrow> None)"

definition band :: "fval \<Rightarrow> string option" where
  "band p = pd_cut [0, 500, 1000, 2000, 5000] [''<$500'', ''$500-$1k'', ''$1k-$2k'', ''$2k+''] p"

definition transform_row :: "row \<Rightarrow> trow" where
  "transform_row r =
     (let ppc = round2 (fdiv (price r) (carat r))
      in row.extend r
           \<lparr>price_per_carat = ppc, value_category = categorise ppc, price_band = band (price r)\<rparr>)"

definition transform :: "row list \<Rightarrow> trow list" where
  "transform df = map transform_row df"

section \<open>The exporter (line 175)\<close>

text \<open>
  \<^verbatim>\<open>df.to_csv(path, index=False)\<close> writes one line per row, in order. A missing cell
  is written as the empty text; how a number is printed is not modelled, a written
  number is kept as its value.
\<close>

datatype csv_field = Txt string | Num fval

definition csv_num :: "fval \<Rightarrow> csv_field" where
  "csv_num x = (if x = NaN then Txt [] else Num x)"

definition csv_str :: "string option \<Rightarrow> csv_field" where
  "csv_str s = (case s of None \<Rightarrow> Txt [] | Some v \<Rightarrow> Txt v)"

definition csv_cell :: "cell \<Rightarrow> csv_field" where
  "csv_cell c = (case c of Number x \<Rightarrow> csv_num x | Text s \<Rightarrow> Txt s)"

record csv_line =
  w_carat :: csv_field
  w_cut :: csv_field
  w_color :: csv_field
  w_price :: csv_field
  w_extra :: "csv_field list"
  w_price_per_carat :: csv_field
  w_value_category :: csv_field
  w_price_band :: csv_field

definition csv_row :: "trow \<Rightarrow> csv_line" where
  "csv_row r =
     \<lparr>w_carat = csv_num (carat r), w_cut = csv_str (cut r), w_color = csv_str (color r),
      w_price = csv_num (price r), w_extra = map csv_cell (extra r),
      w_price_per_carat = csv_num (price_per_carat r),
      w_value_category = Txt (value_category r), w_price_band = csv_str (price_band r)\<rparr>"

definition to_csv :: "trow list \<Rightarrow> csv_line list" where
  "to_csv df = map csv_row df"

text \<open>
  The whole run on a loaded table: the value of \<^verbatim>\<open>df\<close> after the transformer, which
  the analysis and the charts only read, and the lines the exporter writes from it.
\<close>

definition pipeline :: "row list \<Rightarrow> trow list \<times> csv_line list" where
  "pipeline t = (let df = clean t; df = transform df in (df, to_csv df))"


text \<open>The value of \<^verbatim>\<open>df\<close> at line 57, before the \<open>cut\<close> column is rewritten.\<close>

definition survivors :: "row list \<Rightarrow> row list" where
  "survivors t =
     filter (\<lambda>r. fgt (carat r) (Fin 0))
       (filter (\<lambda>r. fgt (price r) (Fin 0)) (dropna (drop_duplicates t)))"

section \<open>Concrete tables\<close>

text \<open>The three rows of the specification's example.\<close>

definition example_rows :: "row list" where
  "example_rows =
     [\<lparr>carat = Fin 1, cut = Some '' ideal '', color = Some ''E'', price = Fin 3000, extra = []\<rparr>,
      \<lparr>carat = Fin 1, cut = Some ''Ideal'', color = Some ''E'', price = Fin 3000, extra = []\<rparr>,
      \<lparr>carat = Fin 0, cut = Some ''Good'', color = Some ''F'', price = Fin 500, extra = []\<rparr>]"

definition ideal_row :: row where
  "ideal_row =
     \<lparr>carat = Fin 1, cut = Some ''Ideal'', color = Some ''E'', price = Fin 3000, extra = []\<rparr>"

definition ideal_trow :: trow where
  "ideal_trow =
     row.extend ideal_row
       \<lparr>price_per_carat = Fin 3000, value_category = ''Mid-Range'', price_band = Some ''$2k+''\<rparr>"

definition zero_carat_row :: row where
  "zero_carat_row =
     \<lparr>carat = Fin 0, cut = Some ''Good'', color = Some ''F'', price = Fin 500, extra = []\<rparr>"

definition large_row :: row where
  "large_row =
     \<lparr>carat = Fin (7 / 10), cut = Some ''premium'', color = Some ''D'', price = Fin 12000,
      extra = [Text ''VS1'']\<rparr>"

section \<open>Duplicates, white space and casing\<close>

lemma set_drop_from: "set (drop_from seen xs) = set xs - set seen"
  by (induction xs arbitrary: seen) auto

lemma distinct_drop_from: "distinct (drop_from seen xs)"
  by (induction xs arbitrary: seen) (auto simp: set_drop_from)

lemma length_drop_from: "length (drop_from seen xs) \<le> length xs"
proof (induction xs arbitrary: seen)
  case Nil
  show ?case by simp
next
  case (Cons x xs)
  have "length (drop_from seen xs) \<le> length xs" and "length (drop_from (x # seen) xs) \<le> length xs"
    using Cons.IH by blast+
  then show ?case by simp
qed


lemma set_drop_duplicates: "set (drop_duplicates t) = set t"
  by (simp add: drop_duplicates_def set_drop_from)

lemma distinct_drop_duplicates: "distinct (drop_duplicates t)"
  by (simp add: drop_duplicates_def distinct_drop_from)

lemma length_drop_duplicates: "length (drop_duplicates t) \<le> length t"
  by (simp add: drop_duplicates_def length_drop_from)


lemma isspace_to_lower: "isspace (to_lower c) = isspace c"
  by (auto simp: isspace_def to_lower_def isupper_def Let_def)

lemma isspace_to_upper: "isspace (to_upper c) = isspace c"
  by (auto simp: isspace_def to_upper_def islower_def Let_def)

lemma iscased_to_lower: "iscased (to_lower c) = iscased c"
  by (auto simp: iscased_def to_lower_def isupper_def islower_def Let_def)

lemma iscased_to_upper: "iscased (to_upper c) = iscased c"
  by (auto simp: iscased_def to_upper_def isupper_def islower_def Let_def)

lemma to_lower_idem: "to_lower (to_lower c) = to_lower c"
  by (auto simp: to_lower_def isupper_def Let_def)

lemma to_upper_idem: "to_upper (to_upper c) = to_upper c"
  by (auto simp: to_upper_def islower_def Let_def)

lemma title_from_idem: "title_from p (title_from p s) = title_from p s"
  by (induction s arbitrary: p)
     (simp_all add: iscased_to_lower iscased_to_upper to_lower_idem to_upper_idem)

lemma isspace_title_from: "map isspace (title_from p s) = map isspace s"
  by (induction s arbitrary: p) (simp_all add: isspace_to_lower isspace_to_upper)

lemma length_title_from: "length (title_from p s) = length s"
  using arg_cong [OF isspace_title_from, of length p s] by simp

lemma last_dropWhile: "dropWhile P xs \<noteq> [] \<Longrightarrow> last (dropWhile P xs) = last xs"
  by (induction xs) (auto split: if_splits)

lemma strip_fixed:
  assumes "x = [] \<or> (\<not> isspace (hd x) \<and> \<not> isspace (last x))"
  shows "strip x = x"
proof (cases "x = []")
  case True
  then show ?thesis by (simp add: strip_def)
next
  case False
  with assms have h: "\<not> isspace (hd x)" and l: "\<not> isspace (last x)" by auto
  from False h have a: "dropWhile isspace x = x" by (cases x) auto
  from False l have "\<not> isspace (hd (rev x))" by (simp add: hd_rev)
  with False have "dropWhile isspace (rev x) = rev x" by (cases "rev x") auto
  with a show ?thesis by (simp add: strip_def)
qed

lemma strip_ends:
  "strip s = [] \<or> (\<not> isspace (hd (strip s)) \<and> \<not> isspace (last (strip s)))"
proof (cases "strip s = []")
  case True
  then show ?thesis by simp
next
  case False
  define a where "a = dropWhile isspace s"
  define b where "b = dropWhile isspace (rev a)"
  have s: "strip s = rev b" by (simp add: strip_def a_def b_def)
  with False have bne: "b \<noteq> []" by simp
  then have "\<not> isspace (hd b)" unfolding b_def by (rule hd_dropWhile)
  with bne have l: "\<not> isspace (last (strip s))" by (simp add: s last_rev)
  from bne have "last b = last (rev a)" unfolding b_def by (rule last_dropWhile)
  moreover from bne have ane: "a \<noteq> []" by (auto simp: b_def)
  ultimately have "last b = hd a" by (simp add: last_rev)
  moreover from ane have "\<not> isspace (hd a)" unfolding a_def by (rule hd_dropWhile)
  ultimately have "\<not> isspace (hd (strip s))" using bne by (simp add: s hd_rev)
  with l show ?thesis by simp
qed

lemma title_from_ends:
  assumes "x = [] \<or> (\<not> isspace (hd x) \<and> \<not> isspace (last x))"
  shows "title_from p x = [] \<or>
         (\<not> isspace (hd (title_from p x)) \<and> \<not> isspace (last (title_from p x)))"
proof (cases "x = []")
  case True
  then show ?thesis by simp
next
  case False
  then have ne: "title_from p x \<noteq> []"
    using length_title_from [of p x] by auto
  have m: "map isspace (title_from p x) = map isspace x" by (rule isspace_title_from)
  from ne have "isspace (hd (title_from p x)) = hd (map isspace (title_from p x))"
    by (simp add: hd_map)
  also have "\<dots> = isspace (hd x)" using False by (simp add: m hd_map)
  finally have h: "isspace (hd (title_from p x)) = isspace (hd x)" .
  from ne have "isspace (last (title_from p x)) = last (map isspace (title_from p x))"
    by (simp add: last_map)
  also have "\<dots> = isspace (last x)" using False by (simp add: m last_map)
  finally have "isspace (last (title_from p x)) = isspace (last x)" .
  with h assms False show ?thesis by simp
qed

lemma normalize_idem: "title (strip (title (strip s))) = title (strip s)"
proof -
  have "strip (title (strip s)) = title (strip s)"
    unfolding title_def by (rule strip_fixed, rule title_from_ends, rule strip_ends)
  then show ?thesis by (simp add: title_def title_from_idem)
qed

lemma normalize_cut_idem: "normalize_cut (normalize_cut r) = normalize_cut r"
  by (cases "cut r") (simp_all add: normalize_cut_def normalize_idem)

section \<open>Facts about the cleaner\<close>

lemma clean_survivors: "clean t = map normalize_cut (survivors t)"
  by (simp add: clean_def survivors_def)

lemma set_survivors:
  "set (survivors t) = {r \<in> set t. \<not> isna_row r \<and> fgt (price r) (Fin 0) \<and> fgt (carat r) (Fin 0)}"
  by (auto simp: survivors_def dropna_def set_drop_duplicates)

lemma distinct_survivors: "distinct (survivors t)"
  by (simp add: survivors_def dropna_def distinct_drop_duplicates)

lemma length_survivors: "length (survivors t) \<le> length t"
proof -
  have "length (survivors t) \<le> length (drop_duplicates t)"
    unfolding survivors_def dropna_def
    by (meson length_filter_le order_trans)
  then show ?thesis using length_drop_duplicates [of t] by simp
qed

lemma normalize_cut_fields:
  "carat (normalize_cut r) = carat r" "price (normalize_cut r) = price r"
  "color (normalize_cut r) = color r" "extra (normalize_cut r) = extra r"
  "cut (normalize_cut r) = map_option (\<lambda>s. title (strip s)) (cut r)"
  by (simp_all add: normalize_cut_def)

lemma isna_normalize_cut: "isna_row (normalize_cut r) = isna_row r"
  by (simp add: isna_row_def normalize_cut_fields)

lemma clean_rows:
  assumes "r \<in> set (clean t)"
  shows "\<not> isna_row r \<and> fgt (price r) (Fin 0) \<and> fgt (carat r) (Fin 0) \<and> normalize_cut r = r"
proof -
  from assms obtain u where u: "u \<in> set (survivors t)" and r: "r = normalize_cut u"
    by (auto simp: clean_survivors)
  from u have "\<not> isna_row u \<and> fgt (price u) (Fin 0) \<and> fgt (carat u) (Fin 0)"
    by (simp add: set_survivors)
  then show ?thesis
    by (simp add: r isna_normalize_cut normalize_cut_fields normalize_cut_idem)
qed


lemma normalize_cut_eq_cut:
  assumes "normalize_cut r = normalize_cut u" and "cut r = cut u"
  shows "r = u"
proof -
  have "carat r = carat u" "price r = price u" "color r = color u" "extra r = extra u"
    using arg_cong [OF assms(1), of carat] arg_cong [OF assms(1), of price]
      arg_cong [OF assms(1), of color] arg_cong [OF assms(1), of extra]
    by (simp_all add: normalize_cut_fields)
  with assms(2) show ?thesis by simp
qed

section \<open>Facts about the transformer and the exporter\<close>


lemma transform_row_fields:
  "carat (transform_row r) = carat r" "price (transform_row r) = price r"
  "cut (transform_row r) = cut r" "color (transform_row r) = color r"
  "extra (transform_row r) = extra r"
  "price_per_carat (transform_row r) = round2 (fdiv (price r) (carat r))"
  "value_category (transform_row r) = categorise (round2 (fdiv (price r) (carat r)))"
  "price_band (transform_row r) = band (price r)"
  by (simp_all add: transform_row_def row.extend_def Let_def)

lemma fgt_not_nan: "fgt x y \<Longrightarrow> x \<noteq> NaN"
  by (cases y) (auto simp: fgt_def)

lemma band_cases:
  "band (Fin p) =
     (if 0 < p \<and> p \<le> 500 then Some ''<$500''
      else if 500 < p \<and> p \<le> 1000 then Some ''$500-$1k''
      else if 1000 < p \<and> p \<le> 2000 then Some ''$1k-$2k''
      else if 2000 < p \<and> p \<le> 5000 then Some ''$2k+''
      else None)"
  by (simp add: band_def pd_cut_def)

lemma band_infinite: "band PInf = None" "band NInf = None" "band NaN = None"
  by (simp_all add: band_def pd_cut_def)

lemma pipeline_parts:
  "fst (pipeline t) = transform (clean t)" "snd (pipeline t) = to_csv (transform (clean t))"
  by (simp_all add: pipeline_def Let_def)


lemma transform_rows:
  "r \<in> set (transform df) \<Longrightarrow> \<exists>u\<in>set df. r = transform_row u"
  by (auto simp: transform_def)

lemma csv_row_fields:
  "w_carat (csv_row r) = csv_num (carat r)" "w_price (csv_row r) = csv_num (price r)"
  "w_price_band (csv_row r) = csv_str (price_band r)"
  by (simp_all add: csv_row_def)

lemma csv_num_positive: "fgt x (Fin 0) \<Longrightarrow> csv_num x = Num x"
  using fgt_not_nan [of x "Fin 0"] by (simp add: csv_num_def)



section \<open>The claims\<close>

text \<open>
  C1 (as amended). Cleaning the three example rows leaves exactly two rows, not one: the
  cuts \<open>'' ideal ''\<close> and \<open>''Ideal''\<close> differ when duplicates are dropped, which happens
  before the cut column is normalised, and only the zero-carat row is removed. Both rows
  have the cut \<open>''Ideal''\<close>, and after the transformer both have \<open>price_per_carat\<close> 3000,
  \<open>value_category\<close> \<open>''Mid-Range''\<close> and \<open>price_band\<close> \<open>''$2k+''\<close>.
\<close>

theorem example_two_rows:
  "clean example_rows = [ideal_row, ideal_row]
   \<and> cut ideal_row = Some ''Ideal''
   \<and> transform (clean example_rows) = [ideal_trow, ideal_trow]
   \<and> price_per_carat ideal_trow = Fin 3000
   \<and> value_category ideal_trow = ''Mid-Range''
   \<and> price_band ideal_trow = Some ''$2k+''"
proof -
  have "clean example_rows = [ideal_row, ideal_row]" by code_simp
  moreover have "cut ideal_row = Some ''Ideal''" by code_simp
  moreover have "transform (clean example_rows) = [ideal_trow, ideal_trow]" by code_simp
  moreover have "price_per_carat ideal_trow = Fin 3000" by code_simp
  moreover have "value_category ideal_trow = ''Mid-Range''" by code_simp
  moreover have "price_band ideal_trow = Some ''$2k+''" by code_simp
  ultimately show ?thesis by blast
qed

text \<open>C1 as stated: the cleaned example does not have exactly one row.\<close>

theorem example_not_single_row: "length (clean example_rows) \<noteq> 1"
  by code_simp




text \<open>
  C3 (as amended). The cleaner's output has no more rows than its input. The rows it keeps
  are pairwise different before the cut column is normalised, so two rows of the output
  are equal only when the rows they come from differ in their cut text.
\<close>

theorem clean_count_and_duplicates:
  "length (clean t) \<le> length t
   \<and> clean t = map normalize_cut (survivors t)
   \<and> distinct (survivors t)
   \<and> (\<forall>i j. i < j \<and> j < length (clean t) \<and> clean t ! i = clean t ! j
        \<longrightarrow> cut (survivors t ! i) \<noteq> cut (survivors t ! j))"
proof -
  have len: "length (clean t) \<le> length t"
    by (simp add: clean_survivors length_survivors)
  have nd: "cut (survivors t ! i) \<noteq> cut (survivors t ! j)"
    if "i < j" "j < length (clean t)" "clean t ! i = clean t ! j" for i j
  proof
    assume c: "cut (survivors t ! i) = cut (survivors t ! j)"
    from that have j: "j < length (survivors t)" and i: "i < length (survivors t)"
      by (simp_all add: clean_survivors)
    with that(3) have "normalize_cut (survivors t ! i) = normalize_cut (survivors t ! j)"
      by (simp add: clean_survivors)
    then have "survivors t ! i = survivors t ! j" using c by (rule normalize_cut_eq_cut)
    with i j distinct_survivors [of t] have "i = j" by (simp add: nth_eq_iff_index_eq)
    with that(1) show False by simp
  qed
  show ?thesis
    using len nd clean_survivors [of t] distinct_survivors [of t] by blast
qed

theorem clean_count_and_duplicates_witness:
  "(0::nat) < 1 \<and> 1 < length (clean example_rows)
   \<and> clean example_rows ! 0 = clean example_rows ! 1
   \<and> cut (survivors example_rows ! 0) \<noteq> cut (survivors example_rows ! 1)
   \<and> length (clean example_rows) \<le> length example_rows"
proof -
  have h: "(0::nat) < 1 \<and> 1 < length (clean example_rows)
           \<and> clean example_rows ! 0 = clean example_rows ! 1"
    by code_simp
  with clean_count_and_duplicates [of example_rows] show ?thesis by blast
qed

text \<open>C3 as stated: the cleaned example holds the same row twice.\<close>

theorem clean_output_duplicates: "\<not> distinct (clean example_rows)"
  by code_simp

text \<open>
  C4. For every row the transformer sets \<open>value_category\<close> from \<open>price_per_carat\<close>
  alone: below 2000 it is \<open>''Budget''\<close>, from 2000 (included) to 5000 (excluded) it is
  \<open>''Mid-Range''\<close>, from 5000 on it is \<open>''Premium''\<close>. In particular 2000 and 4999.99 are
  \<open>''Mid-Range''\<close> and 5000 is \<open>''Premium''\<close>.
\<close>

theorem value_category_boundaries:
  "(\<forall>r\<in>set (transform df). value_category r = categorise (price_per_carat r))
   \<and> (q < 2000 \<longrightarrow> categorise (Fin q) = ''Budget'')
   \<and> (2000 \<le> q \<and> q < 5000 \<longrightarrow> categorise (Fin q) = ''Mid-Range'')
   \<and> (5000 \<le> q \<longrightarrow> categorise (Fin q) = ''Premium'')
   \<and> categorise (Fin 2000) = ''Mid-Range''
   \<and> categorise (Fin (499999 / 100)) = ''Mid-Range''
   \<and> categorise (Fin 5000) = ''Premium''"
proof -
  have "\<forall>r\<in>set (transform df). value_category r = categorise (price_per_carat r)"
    by (auto simp: transform_def transform_row_fields)
  moreover have "q < 2000 \<longrightarrow> categorise (Fin q) = ''Budget''"
    by (simp add: categorise_def)
  moreover have "2000 \<le> q \<and> q < 5000 \<longrightarrow> categorise (Fin q) = ''Mid-Range''"
    by (simp add: categorise_def)
  moreover have "5000 \<le> q \<longrightarrow> categorise (Fin q) = ''Premium''"
    by (simp add: categorise_def)
  moreover have "categorise (Fin 2000) = ''Mid-Range''"
    by (simp add: categorise_def)
  moreover have "categorise (Fin (499999 / 100)) = ''Mid-Range''"
    by (simp add: categorise_def)
  moreover have "categorise (Fin 5000) = ''Premium''"
    by (simp add: categorise_def)
  ultimately show ?thesis by blast
qed

theorem value_category_boundaries_witness:
  "ideal_trow \<in> set (transform (clean example_rows))
   \<and> value_category ideal_trow = categorise (price_per_carat ideal_trow)
   \<and> (1999 :: rat) < 2000 \<and> categorise (Fin 1999) = ''Budget''
   \<and> (2000 :: rat) \<le> 3000 \<and> (3000 :: rat) < 5000 \<and> categorise (Fin 3000) = ''Mid-Range''
   \<and> (5000 :: rat) \<le> 5001 \<and> categorise (Fin 5001) = ''Premium''"
proof -
  have m: "ideal_trow \<in> set (transform (clean example_rows))" by code_simp
  show ?thesis
    using m value_category_boundaries [of "clean example_rows" 1999]
      value_category_boundaries [of "clean example_rows" 3000]
      value_category_boundaries [of "clean example_rows" 5001]
    by simp
qed

text \<open>
  C5. For every row the transformer sets \<open>price_band\<close> from \<open>price\<close> alone, by the
  intervals \<open>(0, 500]\<close>, \<open>(500, 1000]\<close>, \<open>(1000, 2000]\<close> and \<open>(2000, 5000]\<close>; a price
  of exactly 0 and a price above 5000 (an infinite one too) get no label.
\<close>

theorem price_band_intervals:
  "(\<forall>r\<in>set (transform df). price_band r = band (price r))
   \<and> (0 < p \<and> p \<le> 500 \<longrightarrow> band (Fin p) = Some ''<$500'')
   \<and> (500 < p \<and> p \<le> 1000 \<longrightarrow> band (Fin p) = Some ''$500-$1k'')
   \<and> (1000 < p \<and> p \<le> 2000 \<longrightarrow> band (Fin p) = Some ''$1k-$2k'')
   \<and> (2000 < p \<and> p \<le> 5000 \<longrightarrow> band (Fin p) = Some ''$2k+'')
   \<and> band (Fin 0) = None
   \<and> (5000 < p \<longrightarrow> band (Fin p) = None)
   \<and> band PInf = None"
proof -
  have "\<forall>r\<in>set (transform df). price_band r = band (price r)"
    by (auto simp: transform_def transform_row_fields)
  moreover have "0 < p \<and> p \<le> 500 \<longrightarrow> band (Fin p) = Some ''<$500''"
    by (simp add: band_cases)
  moreover have "500 < p \<and> p \<le> 1000 \<longrightarrow> band (Fin p) = Some ''$500-$1k''"
    by (simp add: band_cases)
  moreover have "1000 < p \<and> p \<le> 2000 \<longrightarrow> band (Fin p) = Some ''$1k-$2k''"
    by (simp add: band_cases)
  moreover have "2000 < p \<and> p \<le> 5000 \<longrightarrow> band (Fin p) = Some ''$2k+''"
    by (simp add: band_cases)
  moreover have "band (Fin 0) = None"
    by (simp add: band_cases)
  moreover have "5000 < p \<longrightarrow> band (Fin p) = None"
    by (simp add: band_cases)
  moreover have "band PInf = None"
    by (rule band_infinite)
  ultimately show ?thesis by blast
qed

theorem price_band_intervals_witness:
  "ideal_trow \<in> set (transform (clean example_rows))
   \<and> price_band ideal_trow = band (price ideal_trow)
   \<and> (0 :: rat) < 500 \<and> (500 :: rat) \<le> 500 \<and> band (Fin 500) = Some ''<$500''
   \<and> (500 :: rat) < 501 \<and> (501 :: rat) \<le> 1000 \<and> band (Fin 501) = Some ''$500-$1k''
   \<and> (1000 :: rat) < 2000 \<and> (2000 :: rat) \<le> 2000 \<and> band (Fin 2000) = Some ''$1k-$2k''
   \<and> (2000 :: rat) < 5000 \<and> (5000 :: rat) \<le> 5000 \<and> band (Fin 5000) = Some ''$2k+''
   \<and> (5000 :: rat) < 5001 \<and> band (Fin 5001) = None"
proof -
  have m: "ideal_trow \<in> set (transform (clean example_rows))" by code_simp
  show ?thesis
    using m price_band_intervals [of "clean example_rows" 500]
      price_band_intervals [of "clean example_rows" 501]
      price_band_intervals [of "clean example_rows" 2000]
      price_band_intervals [of "clean example_rows" 5000]
      price_band_intervals [of "clean example_rows" 5001]
    by simp
qed

text \<open>
  C6 (as amended). The transformer raises no error on a zero carat: it returns one row
  for every row it is given, and a zero carat under a finite price makes
  \<open>price_per_carat\<close> positive infinity, negative infinity or NaN according to the sign
  of the price. After the cleaner no carat is zero, so that division never has a zero
  divisor there.
\<close>

theorem zero_carat_division:
  "length (transform df) = length df
   \<and> (\<forall>r\<in>set df. \<forall>p. carat r = Fin 0 \<and> price r = Fin p \<longrightarrow>
        price_per_carat (transform_row r) = (if p = 0 then NaN else if 0 < p then PInf else NInf))
   \<and> (\<forall>r\<in>set (clean t). carat r \<noteq> Fin 0)"
proof -
  have "length (transform df) = length df" by (simp add: transform_def)
  moreover have "\<forall>r\<in>set df. \<forall>p. carat r = Fin 0 \<and> price r = Fin p \<longrightarrow>
        price_per_carat (transform_row r) = (if p = 0 then NaN else if 0 < p then PInf else NInf)"
    by (simp add: transform_row_fields)
  moreover have "\<forall>r\<in>set (clean t). carat r \<noteq> Fin 0"
  proof
    fix r assume "r \<in> set (clean t)"
    then have "fgt (carat r) (Fin 0)" using clean_rows by blast
    then show "carat r \<noteq> Fin 0" by (auto simp: fgt_def)
  qed
  ultimately show ?thesis by blast
qed

theorem zero_carat_division_witness:
  "zero_carat_row \<in> set [zero_carat_row]
   \<and> carat zero_carat_row = Fin 0 \<and> price zero_carat_row = Fin 500
   \<and> price_per_carat (transform_row zero_carat_row) = PInf
   \<and> ideal_row \<in> set (clean example_rows) \<and> carat ideal_row \<noteq> Fin 0"
proof -
  have a: "zero_carat_row \<in> set [zero_carat_row]" by simp
  have b: "carat zero_carat_row = Fin 0 \<and> price zero_carat_row = Fin 500" by code_simp
  have c: "ideal_row \<in> set (clean example_rows)" by code_simp
  from zero_carat_division [of "[zero_carat_row]" example_rows] a b c
  show ?thesis by auto
qed

text \<open>
  C6 as stated: on a table holding the zero-carat row the transformer returns a row,
  with an infinite \<open>price_per_carat\<close>.
\<close>

theorem zero_carat_no_error:
  "transform [zero_carat_row] =
     [row.extend zero_carat_row
        \<lparr>price_per_carat = PInf, value_category = ''Premium'', price_band = Some ''<$500''\<rparr>]"
  by code_simp



text \<open>
  C9. Every row that survives cleaning has a positive carat and a positive price: this
  holds once the invalid rows are dropped, after the cut column is normalised, after the
  transformer, for the table the analysis and the charts read (the same value of
  \<^verbatim>\<open>df\<close>, which they never assign), and for every line the exporter writes.
\<close>

theorem positive_carat_and_price:
  "(\<forall>r\<in>set (survivors t). fgt (carat r) (Fin 0) \<and> fgt (price r) (Fin 0))
   \<and> (\<forall>r\<in>set (clean t). fgt (carat r) (Fin 0) \<and> fgt (price r) (Fin 0))
   \<and> (\<forall>r\<in>set (transform (clean t)). fgt (carat r) (Fin 0) \<and> fgt (price r) (Fin 0))
   \<and> fst (pipeline t) = transform (clean t)
   \<and> (\<forall>l\<in>set (snd (pipeline t)). \<exists>c p. w_carat l = Num c \<and> w_price l = Num p
         \<and> fgt c (Fin 0) \<and> fgt p (Fin 0))"
proof -
  have a: "\<forall>r\<in>set (survivors t). fgt (carat r) (Fin 0) \<and> fgt (price r) (Fin 0)"
    by (simp add: set_survivors)
  have b: "\<forall>r\<in>set (clean t). fgt (carat r) (Fin 0) \<and> fgt (price r) (Fin 0)"
    using clean_rows by blast
  have c: "\<forall>r\<in>set (transform (clean t)). fgt (carat r) (Fin 0) \<and> fgt (price r) (Fin 0)"
  proof
    fix r assume "r \<in> set (transform (clean t))"
    then obtain u where "u \<in> set (clean t)" and "r = transform_row u"
      using transform_rows by blast
    with b show "fgt (carat r) (Fin 0) \<and> fgt (price r) (Fin 0)"
      by (simp add: transform_row_fields)
  qed
  have d: "\<forall>l\<in>set (snd (pipeline t)). \<exists>c p. w_carat l = Num c \<and> w_price l = Num p
         \<and> fgt c (Fin 0) \<and> fgt p (Fin 0)"
  proof
    fix l assume "l \<in> set (snd (pipeline t))"
    then obtain r where r: "r \<in> set (transform (clean t))" and l: "l = csv_row r"
      by (auto simp: pipeline_parts to_csv_def)
    from r c have "fgt (carat r) (Fin 0)" and "fgt (price r) (Fin 0)" by blast+
    then show "\<exists>c p. w_carat l = Num c \<and> w_price l = Num p \<and> fgt c (Fin 0) \<and> fgt p (Fin 0)"
      by (simp add: l csv_row_fields csv_num_positive)
  qed
  from a b c d show ?thesis by (simp add: pipeline_parts)
qed

theorem positive_carat_and_price_witness:
  "normalize_cut large_row \<in> set (clean [large_row, ideal_row, large_row])
   \<and> fgt (carat (normalize_cut large_row)) (Fin 0)
   \<and> fgt (price (normalize_cut large_row)) (Fin 0)
   \<and> large_row \<in> set (survivors [large_row, ideal_row, large_row])
   \<and> fgt (carat large_row) (Fin 0)
   \<and> ideal_trow \<in> set (transform (clean example_rows))
   \<and> fgt (price ideal_trow) (Fin 0)
   \<and> csv_row ideal_trow \<in> set (snd (pipeline example_rows))
   \<and> (\<exists>c p. w_carat (csv_row ideal_trow) = Num c \<and> w_price (csv_row ideal_trow) = Num p
         \<and> fgt c (Fin 0) \<and> fgt p (Fin 0))"
proof -
  have a: "normalize_cut large_row \<in> set (clean [large_row, ideal_row, large_row])"
    by code_simp
  have b: "large_row \<in> set (survivors [large_row, ideal_row, large_row])"
    by code_simp
  have c: "ideal_trow \<in> set (transform (clean example_rows))"
    by code_simp
  have d: "csv_row ideal_trow \<in> set (snd (pipeline example_rows))"
    by code_simp
  from a b c d positive_carat_and_price [of "[large_row, ideal_row, large_row]"]
    positive_carat_and_price [of example_rows]
  show ?thesis by blast
qed



end
